theory Spec2Isabelle
  imports Complex_Main
begin

section \<open>Data model of the meeting cost calculator (src/App.js)\<close>

text \<open>
  JavaScript numbers that hold money and durations are modelled as \<open>real\<close> (rounding of
  IEEE doubles is not represented); the \<open>seconds\<close> of a Firestore \<open>Timestamp\<close>, the
  milliseconds of \<open>Date.now()\<close> and participant ids are integers. Strings are
  \<open>string\<close>; a code unit above 255 is not represented.
\<close>

record timestamp =
  seconds :: int
  nanoseconds :: int

text \<open>The objects built on line 153: \<open>{ id, name, role, rate }\<close>.\<close>

record participant =
  id_p :: int
  name :: string
  role :: string
  rate :: real

type_synonym doc_ref = string

text \<open>The \<open>useState\<close> cells of \<open>App\<close> (lines 38-47) that the logic reads or writes.\<close>

record app_state =
  meetingDocRef :: "doc_ref option"
  participants :: "participant list"
  isRunning :: bool
  accumulatedSeconds :: real
  startTime :: "timestamp option"
  elapsedSeconds :: real
  totalCost :: real
  newName :: string
  newRole :: string
  isLoading :: bool

text \<open>
  The two clocks of the environment. \<open>Date.now()\<close> and \<open>Timestamp.now()\<close> are
  synchronous calls evaluated in the browser: they read the client's clock.
  \<open>serverTimestamp()\<close> is a sentinel that the store replaces by its own time when it
  commits the write.
\<close>

record clocks =
  client_millis :: int
  server_time :: timestamp

definition Date_now :: "clocks \<Rightarrow> int" where
  "Date_now c = client_millis c"

definition Timestamp_now :: "clocks \<Rightarrow> timestamp" where
  "Timestamp_now c =
     \<lparr>seconds = client_millis c div 1000,
      nanoseconds = (client_millis c mod 1000) * 1000000\<rparr>"

subsection \<open>The Firestore document and \<open>setDoc\<close>\<close>

text \<open>
  A stored document names some of the four fields; \<open>None\<close> is a field the document
  does not have. The stored \<open>startTime\<close> is \<open>Some None\<close> for \<open>null\<close>.
\<close>

record document =
  doc_participants :: "participant list option"
  doc_isRunning :: "bool option"
  doc_accumulatedSeconds :: "real option"
  doc_startTime :: "timestamp option option"

text \<open>What the code passes for \<open>startTime\<close>: \<open>null\<close> or \<open>serverTimestamp()\<close>.\<close>

datatype time_write = WriteNull | ServerTimestamp

text \<open>The object literal handed to \<open>setDoc\<close>; \<open>None\<close> is a field the literal omits.\<close>

record doc_data =
  w_participants :: "participant list option"
  w_isRunning :: "bool option"
  w_accumulatedSeconds :: "real option"
  w_startTime :: "time_write option"

record setDoc_call =
  target :: doc_ref
  payload :: doc_data
  merge_opt :: bool

datatype js_error = TypeError | FirestoreError

type_synonym store = "doc_ref \<rightharpoonup> document"

definition empty_document :: document where
  "empty_document =
     \<lparr>doc_participants = None, doc_isRunning = None,
      doc_accumulatedSeconds = None, doc_startTime = None\<rparr>"

fun resolve :: "timestamp \<Rightarrow> time_write \<Rightarrow> timestamp option" where
  "resolve ts WriteNull = None"
| "resolve ts ServerTimestamp = Some ts"

definition write_fields :: "timestamp \<Rightarrow> doc_data \<Rightarrow> document \<Rightarrow> document" where
  "write_fields ts w d =
     \<lparr>doc_participants =
        (case w_participants w of None \<Rightarrow> doc_participants d | Some v \<Rightarrow> Some v),
      doc_isRunning =
        (case w_isRunning w of None \<Rightarrow> doc_isRunning d | Some v \<Rightarrow> Some v),
      doc_accumulatedSeconds =
        (case w_accumulatedSeconds w of None \<Rightarrow> doc_accumulatedSeconds d | Some v \<Rightarrow> Some v),
      doc_startTime =
        (case w_startTime w of None \<Rightarrow> doc_startTime d | Some v \<Rightarrow> Some (resolve ts v))\<rparr>"

text \<open>
  The store commits a call at server time \<open>ts\<close>: with \<open>{ merge: true }\<close> the named
  fields overlay the stored document (an absent document counts as empty); without it
  the document becomes exactly the named fields.
\<close>

definition commit :: "timestamp \<Rightarrow> setDoc_call \<Rightarrow> store \<Rightarrow> store" where
  "commit ts call s =
     s(target call \<mapsto>
        write_fields ts (payload call)
          (if merge_opt call
           then (case s (target call) of None \<Rightarrow> empty_document | Some d \<Rightarrow> d)
           else empty_document))"

text \<open>\<open>setDoc(meetingDocRef, data, options)\<close>: a \<open>null\<close> reference is refused.\<close>

definition setDoc :: "doc_ref option \<Rightarrow> doc_data \<Rightarrow> bool \<Rightarrow> js_error + setDoc_call" where
  "setDoc ref w m =
     (case ref of
        None \<Rightarrow> Inl FirestoreError
      | Some r \<Rightarrow> Inr \<lparr>target = r, payload = w, merge_opt = m\<rparr>)"

text \<open>
  The store accepts every call it is handed; a write the server refuses is not
  represented.

  A handler ends in one of three ways: it throws (\<open>Inl\<close>), it returns without a write
  (\<open>Inr (None, st)\<close>), or it issues one \<open>setDoc\<close> call and returns. The second
  component is the component state the handler leaves. \<open>awaited\<close> is
  \<open>await setDoc(...)\<close> followed by the rest of the handler, \<open>k\<close>.
\<close>

type_synonym outcome = "js_error + (setDoc_call option \<times> app_state)"

definition awaited :: "js_error + setDoc_call \<Rightarrow> app_state \<Rightarrow> outcome" where
  "awaited r k = (case r of Inl e \<Rightarrow> Inl e | Inr call \<Rightarrow> Inr (Some call, k))"

subsection \<open>Configuration (lines 7-18)\<close>

definition JOB_ROLES :: "(string \<times> real) list" where
  "JOB_ROLES =
     [(''Executive (C-Suite)'', 250),
      (''Director / VP'', 175),
      (''Senior Manager'', 140),
      (''Project Manager'', 110),
      (''Senior Software Engineer'', 125),
      (''Software Engineer'', 90),
      (''UX/UI Designer'', 85),
      (''Quality Assurance Analyst'', 75),
      (''Marketing Specialist'', 70),
      (''Intern / Junior Staff'', 35)]"

text \<open>
  \<open>JOB_ROLES[newRole]\<close> also finds the names every object inherits; for those the
  looked-up value has no \<open>rate\<close>, and \<open>setDoc\<close> refuses the \<open>undefined\<close> field.
\<close>

definition Object_prototype_keys :: "string list" where
  "Object_prototype_keys =
     [''constructor'', ''__proto__'', ''__defineGetter__'', ''__defineSetter__'',
      ''__lookupGetter__'', ''__lookupSetter__'', ''hasOwnProperty'', ''isPrototypeOf'',
      ''propertyIsEnumerable'', ''toLocaleString'', ''toString'', ''valueOf'']"

subsection \<open>\<open>String.prototype.trim\<close>\<close>

definition is_white_space :: "char \<Rightarrow> bool" where
  "is_white_space ch = ((of_char ch :: nat) \<in> {9, 10, 11, 12, 13, 32, 160})"

definition trim :: "string \<Rightarrow> string" where
  "trim s = rev (dropWhile is_white_space (rev (dropWhile is_white_space s)))"

section \<open>Snapshot listener (lines 110-120)\<close>

definition default_session :: doc_data where
  "default_session =
     \<lparr>w_participants = Some [], w_isRunning = Some False,
      w_accumulatedSeconds = Some 0, w_startTime = Some WriteNull\<rparr>"

text \<open>
  The listener exists only for a non-null reference \<open>ref\<close> (line 108). It returns the
  \<open>setDoc\<close> call it makes, if any, and the new component state.
\<close>

definition onSnapshot :: "doc_ref \<Rightarrow> document option \<Rightarrow> app_state \<Rightarrow> setDoc_call option \<times> app_state" where
  "onSnapshot ref docSnap st =
     (case docSnap of
        Some d \<Rightarrow>
          (None,
           st\<lparr>participants := (case doc_participants d of Some ps \<Rightarrow> ps | None \<Rightarrow> []),
              isRunning := (case doc_isRunning d of Some b \<Rightarrow> b | None \<Rightarrow> False),
              accumulatedSeconds := (case doc_accumulatedSeconds d of Some a \<Rightarrow> a | None \<Rightarrow> 0),
              startTime := (case doc_startTime d of Some (Some t) \<Rightarrow> Some t | _ \<Rightarrow> None),
              isLoading := False\<rparr>)
      | None \<Rightarrow>
          (Some \<lparr>target = ref, payload = default_session, merge_opt = False\<rparr>,
           st\<lparr>isLoading := False\<rparr>))"

section \<open>Timer and cost calculation (lines 130-138, 168)\<close>

definition calculateCosts :: "clocks \<Rightarrow> app_state \<Rightarrow> app_state" where
  "calculateCosts c st =
     (let currentElapsed =
            (case (isRunning st, startTime st) of
               (True, Some t) \<Rightarrow>
                 accumulatedSeconds st + real_of_int (seconds (Timestamp_now c) - seconds t)
             | _ \<Rightarrow> accumulatedSeconds st);
          totalRatePerSecond = foldl (\<lambda>acc p. acc + rate p / 3600) 0 (participants st)
      in st\<lparr>elapsedSeconds := currentElapsed,
            totalCost := totalRatePerSecond * currentElapsed\<rparr>)"

definition getParticipantCost :: "app_state \<Rightarrow> real \<Rightarrow> real" where
  "getParticipantCost st r = (r / 3600) * elapsedSeconds st"

section \<open>Write handlers (lines 150-167)\<close>

definition handleAddParticipant :: "clocks \<Rightarrow> app_state \<Rightarrow> outcome" where
  "handleAddParticipant c st =
     (if trim (newName st) = [] \<or> newRole st = [] \<or> meetingDocRef st = None
      then Inr (None, st)
      else
        (case map_of JOB_ROLES (newRole st) of
           Some r \<Rightarrow>
             awaited
               (setDoc (meetingDocRef st)
                  \<lparr>w_participants =
                     Some (participants st @
                       [\<lparr>id_p = Date_now c, name = trim (newName st),
                         role = newRole st, rate = r\<rparr>]),
                   w_isRunning = None, w_accumulatedSeconds = None, w_startTime = None\<rparr>
                  True)
               (st\<lparr>newName := []\<rparr>)
         | None \<Rightarrow>
             if newRole st \<in> set Object_prototype_keys then Inl FirestoreError
             else Inl TypeError))"

definition handleRemoveParticipant :: "app_state \<Rightarrow> int \<Rightarrow> outcome" where
  "handleRemoveParticipant st i =
     awaited
       (setDoc (meetingDocRef st)
          \<lparr>w_participants = Some (filter (\<lambda>p. id_p p \<noteq> i) (participants st)),
           w_isRunning = None, w_accumulatedSeconds = None, w_startTime = None\<rparr>
          True)
       st"

definition handleReset :: "app_state \<Rightarrow> outcome" where
  "handleReset st =
     awaited
       (setDoc (meetingDocRef st)
          \<lparr>w_participants = Some [], w_isRunning = Some False,
           w_accumulatedSeconds = Some 0, w_startTime = Some WriteNull\<rparr>
          False)
       st"

definition handleToggleTimer :: "clocks \<Rightarrow> app_state \<Rightarrow> outcome" where
  "handleToggleTimer c st =
     (if length (participants st) = 0 then Inr (None, st)
      else if isRunning st then
        (let elapsedSinceStart =
               (case startTime st of
                  Some t \<Rightarrow> seconds (Timestamp_now c) - seconds t
                | None \<Rightarrow> 0)
         in awaited
              (setDoc (meetingDocRef st)
                 \<lparr>w_participants = None, w_isRunning = Some False,
                  w_accumulatedSeconds =
                    Some (accumulatedSeconds st + real_of_int elapsedSinceStart),
                  w_startTime = Some WriteNull\<rparr>
                 True)
              st)
      else
        awaited
          (setDoc (meetingDocRef st)
             \<lparr>w_participants = None, w_isRunning = Some True,
              w_accumulatedSeconds = None, w_startTime = Some ServerTimestamp\<rparr>
             True)
          st)"

section \<open>Clients acting on the shared store\<close>

text \<open>
  The four commands of the user interface. \<open>ToggleTimer\<close> is Start when the
  component's \<open>isRunning\<close> is false and Stop when it is true.
\<close>

datatype action = AddParticipant | RemoveParticipant int | Reset | ToggleTimer

definition dispatch :: "clocks \<Rightarrow> action \<Rightarrow> app_state \<Rightarrow> outcome" where
  "dispatch c a st =
     (case a of
        AddParticipant \<Rightarrow> handleAddParticipant c st
      | RemoveParticipant i \<Rightarrow> handleRemoveParticipant st i
      | Reset \<Rightarrow> handleReset st
      | ToggleTimer \<Rightarrow> handleToggleTimer c st)"

text \<open>The store after a handler has ended: its call, if it made one, is committed.\<close>

definition settle :: "clocks \<Rightarrow> outcome \<Rightarrow> store \<Rightarrow> store" where
  "settle c out s =
     (case out of
        Inr (Some call, st') \<Rightarrow> commit (server_time c) call s
      | _ \<Rightarrow> s)"

text \<open>
  An event is one command issued by some client: the clocks at that moment, the
  component state the client holds (it may be stale, or belong to another meeting),
  and the command. \<open>run\<close> applies a sequence of events to the store in order.
\<close>

record event =
  ev_clocks :: clocks
  ev_view :: app_state
  ev_action :: action

fun run :: "event list \<Rightarrow> store \<Rightarrow> store" where
  "run [] s = s"
| "run (e # es) s =
     run es (settle (ev_clocks e) (dispatch (ev_clocks e) (ev_action e) (ev_view e)) s)"

text \<open>The component state after the listener has received the store's snapshot.\<close>

definition observe :: "doc_ref \<Rightarrow> store \<Rightarrow> app_state \<Rightarrow> app_state" where
  "observe r s st = snd (onSnapshot r (s r) st)"

text \<open>The default session record, and the store that holds only it.\<close>

definition canonical_document :: document where
  "canonical_document =
     \<lparr>doc_participants = Some [], doc_isRunning = Some False,
      doc_accumulatedSeconds = Some 0, doc_startTime = Some None\<rparr>"

definition initial_store :: "doc_ref \<Rightarrow> store" where
  "initial_store r = [r \<mapsto> canonical_document]"

text \<open>A document is anchored when it is running exactly if it holds a start time.\<close>

definition anchored :: "document \<Rightarrow> bool" where
  "anchored d =
     ((doc_isRunning d = Some True) =
      (case doc_startTime d of Some (Some t) \<Rightarrow> True | _ \<Rightarrow> False))"

definition all_anchored :: "store \<Rightarrow> bool" where
  "all_anchored s = (\<forall>r. case s r of None \<Rightarrow> True | Some d \<Rightarrow> anchored d)"

text \<open>A payload that names \<open>isRunning\<close> and \<open>startTime\<close> together, and consistently.\<close>

definition consistent :: "doc_data \<Rightarrow> bool" where
  "consistent w =
     (case (w_isRunning w, w_startTime w) of
        (None, None) \<Rightarrow> True
      | (Some False, Some WriteNull) \<Rightarrow> True
      | (Some True, Some ServerTimestamp) \<Rightarrow> True
      | _ \<Rightarrow> False)"

section \<open>Example inputs\<close>

definition meeting :: doc_ref where
  "meeting = ''artifacts/default-app-id/public/data/meetings/m1''"

definition reading :: "int \<Rightarrow> int \<Rightarrow> clocks" where
  "reading client_ms server_s =
     \<lparr>client_millis = client_ms,
      server_time = \<lparr>seconds = server_s, nanoseconds = 0\<rparr>\<rparr>"

text \<open>The component right after its first snapshot of the default record.\<close>

definition fresh_view :: app_state where
  "fresh_view =
     \<lparr>meetingDocRef = Some meeting, participants = [], isRunning = False,
      accumulatedSeconds = 0, startTime = None, elapsedSeconds = 0, totalCost = 0,
      newName = [], newRole = ''Executive (C-Suite)'', isLoading = False\<rparr>"

definition alice :: participant where
  "alice = \<lparr>id_p = 5000, name = ''Alice'', role = ''Software Engineer'', rate = 90\<rparr>"

text \<open>Typing into the form (lines 190-191).\<close>

definition typed :: "string \<Rightarrow> string \<Rightarrow> app_state \<Rightarrow> app_state" where
  "typed n r st = st\<lparr>newName := n, newRole := r\<rparr>"

text \<open>
  One client, always up to date with the store: it adds Alice while its clock reads
  5000 ms, starts the timer (the server commits at second 6), then removes Alice.
\<close>

definition store_added :: store where
  "store_added =
     run [\<lparr>ev_clocks = reading 5000 5,
           ev_view = typed ''Alice'' ''Software Engineer'' fresh_view,
           ev_action = AddParticipant\<rparr>]
       (initial_store meeting)"

definition store_started :: store where
  "store_started =
     run [\<lparr>ev_clocks = reading 6000 6,
           ev_view = observe meeting store_added fresh_view,
           ev_action = ToggleTimer\<rparr>]
       store_added"

definition store_emptied :: store where
  "store_emptied =
     run [\<lparr>ev_clocks = reading 7000 7,
           ev_view = observe meeting store_started fresh_view,
           ev_action = RemoveParticipant 5000\<rparr>]
       store_started"

definition running_empty :: app_state where
  "running_empty = observe meeting store_emptied fresh_view"

text \<open>A running meeting with Alice, 120 seconds banked, anchored at second 4.\<close>

definition stop_view :: app_state where
  "stop_view =
     fresh_view\<lparr>participants := [alice], isRunning := True, accumulatedSeconds := 120,
       startTime := Some \<lparr>seconds = 4, nanoseconds = 0\<rparr>\<rparr>"

text \<open>The same meeting while the component holds no start time.\<close>

definition pending_view :: app_state where
  "pending_view =
     fresh_view\<lparr>participants := [alice], isRunning := True, accumulatedSeconds := 120\<rparr>"

definition pending_empty :: app_state where
  "pending_empty = fresh_view\<lparr>isRunning := True, accumulatedSeconds := 120\<rparr>"

text \<open>Alice alone, the timer started at second 0.\<close>

definition ten_view :: app_state where
  "ten_view =
     fresh_view\<lparr>participants := [alice], isRunning := True,
       startTime := Some \<lparr>seconds = 0, nanoseconds = 0\<rparr>\<rparr>"

text \<open>A form holding only blanks, and a second client about to add Bob.\<close>

definition blank_form :: app_state where
  "blank_form = typed ''   '' ''Software Engineer'' fresh_view"

definition bob_form :: app_state where
  "bob_form = typed ''Bob'' ''Project Manager'' (observe meeting store_added fresh_view)"

text \<open>A form whose role is no key of the table.\<close>

definition astronaut_form :: app_state where
  "astronaut_form = typed ''Bob'' ''Astronaut'' fresh_view"

section \<open>Evaluating the example session\<close>

lemmas ex_defs = meeting_def reading_def fresh_view_def alice_def typed_def
lemmas handler_defs = dispatch_def handleAddParticipant_def handleRemoveParticipant_def
  handleReset_def handleToggleTimer_def setDoc_def awaited_def
lemmas store_defs = settle_def commit_def write_fields_def empty_document_def
  initial_store_def canonical_document_def observe_def onSnapshot_def

lemma store_added_eq: "store_added = [meeting \<mapsto> canonical_document\<lparr>doc_participants := Some [alice]\<rparr>]"
  by (simp add: store_added_def ex_defs handler_defs store_defs trim_def is_white_space_def JOB_ROLES_def Date_now_def)

lemma view_added: "observe meeting store_added fresh_view = fresh_view\<lparr>participants := [alice]\<rparr>"
  by (simp add: store_added_eq store_defs fresh_view_def)

lemma store_started_eq: "store_started = [meeting \<mapsto> canonical_document\<lparr>doc_participants := Some [alice], doc_isRunning := Some True, doc_startTime := Some (Some \<lparr>seconds = 6, nanoseconds = 0\<rparr>)\<rparr>]"
  by (simp add: store_started_def view_added store_added_eq handler_defs store_defs fresh_view_def reading_def alice_def)

lemma running_empty_eq: "running_empty = fresh_view\<lparr>isRunning := True, startTime := Some \<lparr>seconds = 6, nanoseconds = 0\<rparr>\<rparr>"
  by (simp add: running_empty_def store_emptied_def store_started_eq handler_defs store_defs fresh_view_def reading_def alice_def)

section \<open>The anchor invariant of the shared record\<close>

text \<open>
  Every payload a handler builds names \<open>isRunning\<close> and \<open>startTime\<close> together or
  not at all, so committing it keeps every document anchored, whatever the issuing
  client believed the record to be.
\<close>

lemma consistent_commit:
  assumes "all_anchored s" "consistent (payload call)"
  shows "all_anchored (commit ts call s)"
proof -
  have base: "anchored (if merge_opt call
           then (case s (target call) of None \<Rightarrow> empty_document | Some d \<Rightarrow> d)
           else empty_document)"
    using assms(1) by (auto simp: all_anchored_def anchored_def empty_document_def split: option.splits dest: spec[of _ "target call"])
  have step: "anchored (write_fields ts w d)" if "anchored d" "consistent w" for w d
    using that
    by (auto simp: anchored_def consistent_def write_fields_def split: option.splits bool.splits time_write.splits)
  show ?thesis
    using assms base step[OF base assms(2)]
    unfolding all_anchored_def commit_def
    by (auto split: option.splits)
qed

lemma dispatch_consistent:
  "dispatch c a st = Inr (Some call, st') \<Longrightarrow> consistent (payload call)"
  by (cases a)
     (auto simp: dispatch_def handleAddParticipant_def handleRemoveParticipant_def
        handleReset_def handleToggleTimer_def setDoc_def awaited_def consistent_def Let_def
        split: if_splits option.splits)

lemma settle_anchored:
  "all_anchored s \<Longrightarrow> all_anchored (settle c (dispatch c a st) s)"
  by (auto simp: settle_def split: sum.splits option.splits prod.splits
        intro: consistent_commit dest: dispatch_consistent)

lemma run_anchored: "all_anchored s \<Longrightarrow> all_anchored (run evs s)"
  by (induction evs arbitrary: s) (simp_all add: settle_anchored)

lemma initial_anchored: "all_anchored (initial_store r)"
  by (simp add: all_anchored_def initial_store_def anchored_def canonical_document_def)

lemma all_anchoredD: "all_anchored s \<Longrightarrow> s r = Some d \<Longrightarrow> anchored d"
  unfolding all_anchored_def by (drule spec[of _ r]) simp

lemma snapshot_anchored:
  "anchored d \<Longrightarrow>
   isRunning (snd (onSnapshot r (Some d) st)) = (startTime (snd (onSnapshot r (Some d) st)) \<noteq> None)"
  by (cases "doc_isRunning d"; cases "doc_startTime d")
     (auto simp: onSnapshot_def anchored_def split: option.splits)

lemma observe_anchored:
  assumes "all_anchored s" "s r \<noteq> None"
  shows "isRunning (observe r s st) = (startTime (observe r s st) \<noteq> None)"
proof -
  from assms(2) obtain d where d: "s r = Some d" by auto
  from all_anchoredD [OF assms(1) d] show ?thesis
    unfolding observe_def d by (rule snapshot_anchored)
qed

lemma settle_keeps: "s r \<noteq> None \<Longrightarrow> settle c out s r \<noteq> None"
  by (simp add: settle_def commit_def split: sum.splits option.splits prod.splits)

lemma run_keeps: "s r \<noteq> None \<Longrightarrow> run evs s r \<noteq> None"
proof (induction evs arbitrary: s)
  case Nil
  then show ?case by simp
next
  case (Cons e es)
  from Cons.prems have "settle (ev_clocks e) (dispatch (ev_clocks e) (ev_action e) (ev_view e)) s r \<noteq> None"
    by (rule settle_keeps)
  then show ?case unfolding run.simps by (rule Cons.IH)
qed

lemma initial_exists: "initial_store r r \<noteq> None"
  by (simp add: initial_store_def)

text \<open>
  The record the listener creates when the document does not exist yet (line 118) is
  the default one, so \<open>initial_store\<close> is where every meeting begins.
\<close>

lemma first_snapshot_creates_default:
  "onSnapshot r None st =
     (Some \<lparr>target = r, payload = default_session, merge_opt = False\<rparr>,
      st\<lparr>isLoading := False\<rparr>)
   \<and> commit ts \<lparr>target = r, payload = default_session, merge_opt = False\<rparr> Map.empty =
       initial_store r"
  by (simp add: onSnapshot_def default_session_def store_defs)

text \<open>
  C2. In every state reachable from the default session record by Start, Stop and
  Reset (and by Add and Remove, issued by any number of clients from any component
  state, in any order), the record exists and holds a start time exactly if its
  \<open>isRunning\<close> is true, and so does the component that receives its snapshot.
\<close>

theorem anchor_iff_running:
  "(case run evs (initial_store r) r of None \<Rightarrow> False | Some d \<Rightarrow> anchored d)
   \<and> isRunning (observe r (run evs (initial_store r)) st) =
       (startTime (observe r (run evs (initial_store r)) st) \<noteq> None)"
proof
  have kept: "run evs (initial_store r) r \<noteq> None"
    by (rule run_keeps [OF initial_exists])
  have inv: "all_anchored (run evs (initial_store r))"
    by (rule run_anchored [OF initial_anchored])
  from kept obtain d where d: "run evs (initial_store r) r = Some d"
    by auto
  from all_anchoredD [OF inv d] d
  show "case run evs (initial_store r) r of None \<Rightarrow> False | Some d \<Rightarrow> anchored d"
    by simp
  from inv kept
  show "isRunning (observe r (run evs (initial_store r)) st) =
       (startTime (observe r (run evs (initial_store r)) st) \<noteq> None)"
    by (rule observe_anchored)
qed

section \<open>Stop\<close>

text \<open>
  C1, as amended. From every running component state with at least one participant,
  Stop writes the old accumulated seconds plus \<open>now - startTime\<close> in seconds
  (plus nothing when the component holds no start time), \<open>isRunning = false\<close> and
  \<open>startTime = null\<close>, and the snapshot of the store afterwards shows exactly that.
\<close>

theorem stop_banks_segment:
  assumes "isRunning st" "participants st \<noteq> []" "meetingDocRef st = Some r"
  shows "handleToggleTimer c st =
      Inr (Some \<lparr>target = r,
                 payload = \<lparr>w_participants = None, w_isRunning = Some False,
                   w_accumulatedSeconds =
                     Some (accumulatedSeconds st +
                       (case startTime st of
                          Some t \<Rightarrow> real_of_int (seconds (Timestamp_now c) - seconds t)
                        | None \<Rightarrow> 0)),
                   w_startTime = Some WriteNull\<rparr>,
                 merge_opt = True\<rparr>, st)
    \<and> accumulatedSeconds (observe r (settle c (handleToggleTimer c st) s) st') =
        accumulatedSeconds st +
          (case startTime st of
             Some t \<Rightarrow> real_of_int (seconds (Timestamp_now c) - seconds t)
           | None \<Rightarrow> 0)
    \<and> isRunning (observe r (settle c (handleToggleTimer c st) s) st') = False
    \<and> startTime (observe r (settle c (handleToggleTimer c st) s) st') = None"
  using assms
  by (cases "startTime st") (simp_all add: handleToggleTimer_def setDoc_def awaited_def store_defs)

text \<open>At second 10, with 120 seconds banked and the anchor at second 4: 126.\<close>

theorem stop_banks_segment_witness:
  "isRunning stop_view \<and> participants stop_view \<noteq> []
   \<and> meetingDocRef stop_view = Some meeting
   \<and> startTime stop_view = Some \<lparr>seconds = 4, nanoseconds = 0\<rparr>
   \<and> accumulatedSeconds stop_view = 120
   \<and> seconds (Timestamp_now (reading 10000 10)) = 10
   \<and> accumulatedSeconds (observe meeting
        (settle (reading 10000 10) (handleToggleTimer (reading 10000 10) stop_view) store_started)
        stop_view) = 126
   \<and> isRunning (observe meeting
        (settle (reading 10000 10) (handleToggleTimer (reading 10000 10) stop_view) store_started)
        stop_view) = False
   \<and> startTime (observe meeting
        (settle (reading 10000 10) (handleToggleTimer (reading 10000 10) stop_view) store_started)
        stop_view) = None"
proof -
  have h: "isRunning stop_view" "participants stop_view \<noteq> []"
    "meetingDocRef stop_view = Some meeting"
    by (simp_all add: stop_view_def fresh_view_def)
  have given: "startTime stop_view = Some \<lparr>seconds = 4, nanoseconds = 0\<rparr>"
    "accumulatedSeconds stop_view = 120"
    "seconds (Timestamp_now (reading 10000 10)) = 10"
    by (simp_all add: stop_view_def fresh_view_def Timestamp_now_def reading_def)
  have now: "accumulatedSeconds stop_view +
      (case startTime stop_view of
         Some t \<Rightarrow> real_of_int (seconds (Timestamp_now (reading 10000 10)) - seconds t)
       | None \<Rightarrow> 0) = 126"
    by (simp add: given)
  let ?view = "observe meeting
        (settle (reading 10000 10) (handleToggleTimer (reading 10000 10) stop_view) store_started)
        stop_view"
  note stopped = stop_banks_segment [OF h, of "reading 10000 10" store_started stop_view]
  from stopped have "accumulatedSeconds ?view = accumulatedSeconds stop_view +
      (case startTime stop_view of
         Some t \<Rightarrow> real_of_int (seconds (Timestamp_now (reading 10000 10)) - seconds t)
       | None \<Rightarrow> 0)"
    by blast
  then have acc: "accumulatedSeconds ?view = 126"
    using now by (rule trans)
  from stopped have rest: "isRunning ?view = False" "startTime ?view = None"
    by blast+
  from h given acc rest show ?thesis by blast
qed

text \<open>
  With no participant left the same Stop writes nothing: the client that added Alice,
  started the timer and removed her again cannot stop the timer, which stays running.
\<close>

theorem stop_banks_segment_counterexample:
  "isRunning running_empty
   \<and> startTime running_empty = Some \<lparr>seconds = 6, nanoseconds = 0\<rparr>
   \<and> handleToggleTimer (reading 9000 9) running_empty = Inr (None, running_empty)
   \<and> isRunning (observe meeting
         (settle (reading 9000 9) (handleToggleTimer (reading 9000 9) running_empty) store_emptied)
         fresh_view)"
proof -
  have toggle: "handleToggleTimer (reading 9000 9) running_empty = Inr (None, running_empty)"
    by (simp add: running_empty_eq handleToggleTimer_def fresh_view_def)
  have same: "observe meeting store_emptied fresh_view = running_empty"
    by (simp add: running_empty_def)
  have running: "isRunning running_empty"
    "startTime running_empty = Some \<lparr>seconds = 6, nanoseconds = 0\<rparr>"
    by (simp_all add: running_empty_eq)
  show ?thesis
    using running by (simp add: toggle settle_def same)
qed

text \<open>
  C10, as amended. From a running component state with at least one participant and
  no start time, Stop does not throw: the segment counts as 0, so it writes the old
  accumulated seconds, \<open>isRunning = false\<close> and \<open>startTime = null\<close>.
\<close>

theorem stop_without_anchor:
  assumes "isRunning st" "participants st \<noteq> []" "startTime st = None" "meetingDocRef st = Some r"
  shows "handleToggleTimer c st =
      Inr (Some \<lparr>target = r,
                 payload = \<lparr>w_participants = None, w_isRunning = Some False,
                   w_accumulatedSeconds = Some (accumulatedSeconds st),
                   w_startTime = Some WriteNull\<rparr>,
                 merge_opt = True\<rparr>, st)
    \<and> accumulatedSeconds (observe r (settle c (handleToggleTimer c st) s) st') = accumulatedSeconds st
    \<and> isRunning (observe r (settle c (handleToggleTimer c st) s) st') = False
    \<and> startTime (observe r (settle c (handleToggleTimer c st) s) st') = None"
  using assms
  by (simp add: handleToggleTimer_def setDoc_def awaited_def store_defs)

theorem stop_without_anchor_witness:
  "isRunning pending_view \<and> participants pending_view \<noteq> []
   \<and> startTime pending_view = None
   \<and> meetingDocRef pending_view = Some meeting
   \<and> accumulatedSeconds (observe meeting
        (settle (reading 10000 10) (handleToggleTimer (reading 10000 10) pending_view) store_started)
        pending_view) = 120
   \<and> isRunning (observe meeting
        (settle (reading 10000 10) (handleToggleTimer (reading 10000 10) pending_view) store_started)
        pending_view) = False
   \<and> startTime (observe meeting
        (settle (reading 10000 10) (handleToggleTimer (reading 10000 10) pending_view) store_started)
        pending_view) = None"
proof -
  have h: "isRunning pending_view" "participants pending_view \<noteq> []"
    "startTime pending_view = None"
    "meetingDocRef pending_view = Some meeting"
    by (simp_all add: pending_view_def fresh_view_def)
  have acc: "accumulatedSeconds pending_view = 120"
    by (simp add: pending_view_def fresh_view_def)
  let ?view = "observe meeting
        (settle (reading 10000 10) (handleToggleTimer (reading 10000 10) pending_view) store_started)
        pending_view"
  note stopped = stop_without_anchor [OF h, of "reading 10000 10" store_started pending_view]
  from stopped have "accumulatedSeconds ?view = accumulatedSeconds pending_view"
    by blast
  then have kept: "accumulatedSeconds ?view = 120"
    using acc by (rule trans)
  from stopped have rest: "isRunning ?view = False" "startTime ?view = None"
    by blast+
  from h kept rest show ?thesis by blast
qed

text \<open>Without a participant nothing is written, and the record is left as it was.\<close>

theorem stop_without_anchor_counterexample:
  "isRunning pending_empty \<and> startTime pending_empty = None
   \<and> handleToggleTimer (reading 10000 10) pending_empty = Inr (None, pending_empty)
   \<and> settle (reading 10000 10) (handleToggleTimer (reading 10000 10) pending_empty) store_emptied
       = store_emptied"
  by (simp add: pending_empty_def fresh_view_def handleToggleTimer_def settle_def)

section \<open>Start with no participant\<close>

text \<open>
  C4. When the participant sequence is empty, the toggle (Start, and Stop as well)
  returns before any \<open>setDoc\<close>: the component state is unchanged and the store is
  unchanged.
\<close>

theorem start_rejected_when_empty:
  "participants st = [] \<Longrightarrow>
   handleToggleTimer c st = Inr (None, st) \<and> settle c (handleToggleTimer c st) s = s"
  by (simp add: handleToggleTimer_def settle_def)

theorem start_rejected_when_empty_witness:
  "participants fresh_view = [] \<and> \<not> isRunning fresh_view
   \<and> handleToggleTimer (reading 5000 5) fresh_view = Inr (None, fresh_view)
   \<and> settle (reading 5000 5) (handleToggleTimer (reading 5000 5) fresh_view) (initial_store meeting)
       = initial_store meeting"
proof -
  have h: "participants fresh_view = []" by (simp add: fresh_view_def)
  have r: "\<not> isRunning fresh_view" by (simp add: fresh_view_def)
  from start_rejected_when_empty [OF h, of "reading 5000 5" "initial_store meeting"] h r
  show ?thesis by blast
qed

section \<open>Reset\<close>

text \<open>
  C6. From every component state and every store, Reset issues a \<open>setDoc\<close> without
  the merge option that names all four fields, and the record becomes the canonical
  empty one: no participants, not running, zero accumulated seconds, no start time.
\<close>

theorem reset_replaces_record:
  assumes "meetingDocRef st = Some r"
  shows "handleReset st =
      Inr (Some \<lparr>target = r, payload = default_session, merge_opt = False\<rparr>, st)
    \<and> settle c (handleReset st) s r = Some canonical_document
    \<and> participants (observe r (settle c (handleReset st) s) st') = []
    \<and> isRunning (observe r (settle c (handleReset st) s) st') = False
    \<and> accumulatedSeconds (observe r (settle c (handleReset st) s) st') = 0
    \<and> startTime (observe r (settle c (handleReset st) s) st') = None"
  using assms
  by (simp add: handleReset_def setDoc_def awaited_def default_session_def store_defs)

theorem reset_replaces_record_witness:
  "meetingDocRef stop_view = Some meeting
   \<and> store_started meeting \<noteq> Some canonical_document
   \<and> settle (reading 8000 8) (handleReset stop_view) store_started meeting = Some canonical_document"
proof -
  have h: "meetingDocRef stop_view = Some meeting"
    by (simp add: stop_view_def fresh_view_def)
  have before: "store_started meeting \<noteq> Some canonical_document"
    by (simp add: store_started_eq canonical_document_def)
  from reset_replaces_record [OF h, of "reading 8000 8" store_started stop_view] h before
  show ?thesis by blast
qed


section \<open>The clocks behind the instants\<close>

lemma now_ignores_server: "Timestamp_now (c\<lparr>server_time := ts\<rparr>) = Timestamp_now c"
  by (simp add: Timestamp_now_def)

text \<open>
  C3, as amended. The start anchor that Start stores is the store's own instant and
  does not depend on the client's clock. The \<open>now\<close> that Stop subtracts the anchor
  from, and the \<open>now\<close> of every tick, is \<open>Timestamp.now()\<close>: the client's clock in
  whole seconds. Neither depends on the store's clock.
\<close>

theorem anchor_server_now_client:
  "(\<not> isRunning st \<and> participants st \<noteq> [] \<and> meetingDocRef st = Some r
      \<longrightarrow> startTime (observe r (settle c (handleToggleTimer c st) s) st') = Some (server_time c))
   \<and> (\<not> isRunning st
      \<longrightarrow> handleToggleTimer (c\<lparr>client_millis := m\<rparr>) st = handleToggleTimer c st)
   \<and> (isRunning st \<and> participants st \<noteq> [] \<and> startTime st = Some t \<and> meetingDocRef st = Some r
      \<longrightarrow> accumulatedSeconds (observe r (settle c (handleToggleTimer c st) s) st') =
          accumulatedSeconds st + real_of_int (client_millis c div 1000 - seconds t))
   \<and> (isRunning st \<and> startTime st = Some t
      \<longrightarrow> elapsedSeconds (calculateCosts c st) =
          accumulatedSeconds st + real_of_int (client_millis c div 1000 - seconds t))
   \<and> handleToggleTimer (c\<lparr>server_time := ts\<rparr>) st = handleToggleTimer c st
   \<and> calculateCosts (c\<lparr>server_time := ts\<rparr>) st = calculateCosts c st"
proof (intro conjI impI)
  assume "\<not> isRunning st \<and> participants st \<noteq> [] \<and> meetingDocRef st = Some r"
  then show "startTime (observe r (settle c (handleToggleTimer c st) s) st') = Some (server_time c)"
    by (simp add: handleToggleTimer_def setDoc_def awaited_def store_defs)
next
  assume "\<not> isRunning st"
  then show "handleToggleTimer (c\<lparr>client_millis := m\<rparr>) st = handleToggleTimer c st"
    by (simp add: handleToggleTimer_def)
next
  assume "isRunning st \<and> participants st \<noteq> [] \<and> startTime st = Some t \<and> meetingDocRef st = Some r"
  then show "accumulatedSeconds (observe r (settle c (handleToggleTimer c st) s) st') =
          accumulatedSeconds st + real_of_int (client_millis c div 1000 - seconds t)"
    by (simp add: handleToggleTimer_def setDoc_def awaited_def store_defs Timestamp_now_def)
next
  assume "isRunning st \<and> startTime st = Some t"
  then show "elapsedSeconds (calculateCosts c st) =
          accumulatedSeconds st + real_of_int (client_millis c div 1000 - seconds t)"
    by (simp add: calculateCosts_def Timestamp_now_def Let_def)
next
  show "handleToggleTimer (c\<lparr>server_time := ts\<rparr>) st = handleToggleTimer c st"
    unfolding handleToggleTimer_def now_ignores_server by (rule refl)
  show "calculateCosts (c\<lparr>server_time := ts\<rparr>) st = calculateCosts c st"
    unfolding calculateCosts_def now_ignores_server by (rule refl)
qed

text \<open>
  A client whose clock is far off still gets the store's second 6 as its anchor; a
  client whose clock reads 70 s banks 186 seconds and shows 186 on its meter.
\<close>

theorem anchor_server_now_client_witness:
  "\<not> isRunning (observe meeting store_added fresh_view)
   \<and> participants (observe meeting store_added fresh_view) \<noteq> []
   \<and> meetingDocRef (observe meeting store_added fresh_view) = Some meeting
   \<and> startTime (observe meeting
        (settle (reading 999000 6)
           (handleToggleTimer (reading 999000 6) (observe meeting store_added fresh_view))
           store_added)
        fresh_view) = Some \<lparr>seconds = 6, nanoseconds = 0\<rparr>
   \<and> handleToggleTimer ((reading 999000 6)\<lparr>client_millis := 6000\<rparr>)
        (observe meeting store_added fresh_view) =
       handleToggleTimer (reading 999000 6) (observe meeting store_added fresh_view)
   \<and> isRunning stop_view \<and> participants stop_view \<noteq> []
   \<and> startTime stop_view = Some \<lparr>seconds = 4, nanoseconds = 0\<rparr>
   \<and> meetingDocRef stop_view = Some meeting
   \<and> accumulatedSeconds (observe meeting
        (settle (reading 70000 10) (handleToggleTimer (reading 70000 10) stop_view) store_started)
        fresh_view) = 186
   \<and> elapsedSeconds (calculateCosts (reading 70000 10) stop_view) = 186"
proof -
  let ?view = "observe meeting store_added fresh_view"
  let ?t = "\<lparr>seconds = 4, nanoseconds = 0\<rparr>"
  have h: "\<not> isRunning ?view \<and> participants ?view \<noteq> [] \<and> meetingDocRef ?view = Some meeting"
    unfolding view_added by (simp add: fresh_view_def)
  have server: "Some (server_time (reading 999000 6)) = Some \<lparr>seconds = 6, nanoseconds = 0\<rparr>"
    by (simp add: reading_def)
  note start = anchor_server_now_client
    [of ?view meeting "reading 999000 6" store_added fresh_view 6000]
  from start h
  have "startTime (observe meeting
        (settle (reading 999000 6) (handleToggleTimer (reading 999000 6) ?view) store_added)
        fresh_view) = Some (server_time (reading 999000 6))"
    by blast
  then have anchor: "startTime (observe meeting
        (settle (reading 999000 6) (handleToggleTimer (reading 999000 6) ?view) store_added)
        fresh_view) = Some \<lparr>seconds = 6, nanoseconds = 0\<rparr>"
    using server by (rule trans)
  from start h
  have deaf: "handleToggleTimer ((reading 999000 6)\<lparr>client_millis := 6000\<rparr>) ?view =
       handleToggleTimer (reading 999000 6) ?view"
    by blast
  have g: "isRunning stop_view \<and> participants stop_view \<noteq> []
      \<and> startTime stop_view = Some ?t \<and> meetingDocRef stop_view = Some meeting"
    by (simp add: stop_view_def fresh_view_def)
  have late: "accumulatedSeconds stop_view +
      real_of_int (client_millis (reading 70000 10) div 1000 - seconds ?t) = 186"
    by (simp add: stop_view_def fresh_view_def reading_def)
  note stop = anchor_server_now_client
    [of stop_view meeting "reading 70000 10" store_started fresh_view _ ?t]
  from stop g
  have "accumulatedSeconds (observe meeting
        (settle (reading 70000 10) (handleToggleTimer (reading 70000 10) stop_view) store_started)
        fresh_view) =
      accumulatedSeconds stop_view +
        real_of_int (client_millis (reading 70000 10) div 1000 - seconds ?t)"
    by blast
  then have banked: "accumulatedSeconds (observe meeting
        (settle (reading 70000 10) (handleToggleTimer (reading 70000 10) stop_view) store_started)
        fresh_view) = 186"
    using late by (rule trans)
  from stop g
  have "elapsedSeconds (calculateCosts (reading 70000 10) stop_view) =
      accumulatedSeconds stop_view +
        real_of_int (client_millis (reading 70000 10) div 1000 - seconds ?t)"
    by blast
  then have shown: "elapsedSeconds (calculateCosts (reading 70000 10) stop_view) = 186"
    using late by (rule trans)
  from h anchor deaf g banked shown show ?thesis by blast
qed

text \<open>
  Two clients stop the same meeting while the store's clock reads second 10; their own
  clocks read 10 s and 70 s. They bank 126 and 186 seconds, and their meters show the
  same two values.
\<close>

theorem anchor_server_now_client_counterexample:
  "server_time (reading 10000 10) = server_time (reading 70000 10)
   \<and> accumulatedSeconds (observe meeting
        (settle (reading 10000 10) (handleToggleTimer (reading 10000 10) stop_view) store_started)
        fresh_view) = 126
   \<and> accumulatedSeconds (observe meeting
        (settle (reading 70000 10) (handleToggleTimer (reading 70000 10) stop_view) store_started)
        fresh_view) = 186
   \<and> elapsedSeconds (calculateCosts (reading 10000 10) stop_view) = 126
   \<and> elapsedSeconds (calculateCosts (reading 70000 10) stop_view) = 186"
  by (simp add: reading_def stop_view_def fresh_view_def alice_def handleToggleTimer_def
        setDoc_def awaited_def store_defs Timestamp_now_def calculateCosts_def)

section \<open>Derived values\<close>

lemma foldl_rate: "foldl (\<lambda>acc p. acc + rate p / 3600) a ps = a + (\<Sum>p\<leftarrow>ps. rate p / 3600)"
  by (induction ps arbitrary: a) simp_all

lemma sum_scaled: "(\<Sum>p\<leftarrow>ps. rate p / 3600 * e) = (\<Sum>p\<leftarrow>ps. rate p / 3600) * (e::real)"
  by (induction ps) (simp_all add: distrib_right)

lemma elapsed_calculated:
  "elapsedSeconds (calculateCosts c st) =
   accumulatedSeconds st +
     (if isRunning st
      then (case startTime st of
              Some t \<Rightarrow> real_of_int (seconds (Timestamp_now c) - seconds t)
            | None \<Rightarrow> 0)
      else 0)"
  by (simp add: calculateCosts_def Let_def split: option.splits bool.splits)

lemma total_calculated:
  "totalCost (calculateCosts c st) =
   (\<Sum>p\<leftarrow>participants st. rate p / 3600 * elapsedSeconds (calculateCosts c st))"
  unfolding sum_scaled by (simp add: calculateCosts_def Let_def foldl_rate)

text \<open>
  C5. After \<open>calculateCosts\<close>, the elapsed seconds are the accumulated seconds plus,
  while running, \<open>now\<close> minus the start time (nothing when the component holds no
  start time); the total cost is the sum over the participants of
  \<open>rate / 3600 \<times> elapsedSeconds\<close>; each participant's cost is
  \<open>rate / 3600 \<times> elapsedSeconds\<close>; one participant at rate 90 and 10 elapsed
  seconds cost 0.25.
\<close>

theorem costs_derived:
  "elapsedSeconds (calculateCosts c st) =
     accumulatedSeconds st +
       (if isRunning st
        then (case startTime st of
                Some t \<Rightarrow> real_of_int (seconds (Timestamp_now c) - seconds t)
              | None \<Rightarrow> 0)
        else 0)
   \<and> totalCost (calculateCosts c st) =
       (\<Sum>p\<leftarrow>participants st. rate p / 3600 * elapsedSeconds (calculateCosts c st))
   \<and> getParticipantCost (calculateCosts c st) (rate p) =
       rate p / 3600 * elapsedSeconds (calculateCosts c st)
   \<and> (participants st = [q] \<and> rate q = 90 \<and> elapsedSeconds (calculateCosts c st) = 10
        \<longrightarrow> totalCost (calculateCosts c st) = 0.25)"
proof (intro conjI impI)
  show "elapsedSeconds (calculateCosts c st) =
     accumulatedSeconds st +
       (if isRunning st
        then (case startTime st of
                Some t \<Rightarrow> real_of_int (seconds (Timestamp_now c) - seconds t)
              | None \<Rightarrow> 0)
        else 0)"
    by (rule elapsed_calculated)
  show "totalCost (calculateCosts c st) =
       (\<Sum>p\<leftarrow>participants st. rate p / 3600 * elapsedSeconds (calculateCosts c st))"
    by (rule total_calculated)
  show "getParticipantCost (calculateCosts c st) (rate p) =
       rate p / 3600 * elapsedSeconds (calculateCosts c st)"
    by (simp add: getParticipantCost_def)
next
  assume one: "participants st = [q] \<and> rate q = 90 \<and> elapsedSeconds (calculateCosts c st) = 10"
  have "totalCost (calculateCosts c st) = rate q / 3600 * elapsedSeconds (calculateCosts c st)"
    using one by (simp add: total_calculated)
  also have "\<dots> = 0.25" using one by simp
  finally show "totalCost (calculateCosts c st) = 0.25" .
qed

text \<open>Alice alone, started at second 0 and read at second 10.\<close>

theorem costs_derived_witness:
  "participants ten_view = [alice] \<and> rate alice = 90
   \<and> elapsedSeconds (calculateCosts (reading 10000 10) ten_view) = 10
   \<and> totalCost (calculateCosts (reading 10000 10) ten_view) = 0.25"
proof -
  have one: "participants ten_view = [alice]" "rate alice = 90"
    by (simp_all add: ten_view_def fresh_view_def alice_def)
  have "elapsedSeconds (calculateCosts (reading 10000 10) ten_view) =
     accumulatedSeconds ten_view +
       (if isRunning ten_view
        then (case startTime ten_view of
                Some t \<Rightarrow> real_of_int (seconds (Timestamp_now (reading 10000 10)) - seconds t)
              | None \<Rightarrow> 0)
        else 0)"
    using costs_derived [of "reading 10000 10" ten_view alice alice] by blast
  also have "\<dots> = 10"
    by (simp add: ten_view_def fresh_view_def Timestamp_now_def reading_def)
  finally have ten: "elapsedSeconds (calculateCosts (reading 10000 10) ten_view) = 10" .
  from costs_derived [of "reading 10000 10" ten_view alice alice] one ten
  have "totalCost (calculateCosts (reading 10000 10) ten_view) = 0.25" by blast
  with one ten show ?thesis by blast
qed

section \<open>Adding and removing participants\<close>

text \<open>
  C7, as amended. When the name is empty after trimming, or the role is the empty
  string, Add returns without an error, without a \<open>setDoc\<close> and without touching the
  component state. When the name is empty after trimming or the role is no key of
  \<open>JOB_ROLES\<close>, the store is left unchanged.
\<close>

theorem add_rejects_silently:
  "(trim (newName st) = [] \<or> newRole st = []
      \<longrightarrow> handleAddParticipant c st = Inr (None, st))
   \<and> (trim (newName st) = [] \<or> map_of JOB_ROLES (newRole st) = None
      \<longrightarrow> settle c (handleAddParticipant c st) s = s)"
  by (auto simp: handleAddParticipant_def settle_def)

theorem add_rejects_silently_witness:
  "trim (newName blank_form) = []
   \<and> handleAddParticipant (reading 5000 5) blank_form = Inr (None, blank_form)
   \<and> map_of JOB_ROLES (newRole astronaut_form) = None
   \<and> settle (reading 5000 5) (handleAddParticipant (reading 5000 5) astronaut_form) store_added
       = store_added"
proof -
  have blank: "trim (newName blank_form) = []"
    by (simp add: blank_form_def typed_def trim_def is_white_space_def)
  have role: "map_of JOB_ROLES (newRole astronaut_form) = None"
    by (simp add: astronaut_form_def typed_def JOB_ROLES_def)
  from add_rejects_silently [of blank_form "reading 5000 5" store_added] blank
  have a: "handleAddParticipant (reading 5000 5) blank_form = Inr (None, blank_form)"
    by blast
  from add_rejects_silently [of astronaut_form "reading 5000 5" store_added] role
  have b: "settle (reading 5000 5) (handleAddParticipant (reading 5000 5) astronaut_form) store_added
       = store_added"
    by blast
  from blank a role b show ?thesis by blast
qed

text \<open>A name of three blanks: the handler returns normally, it does not throw.\<close>

theorem add_rejects_silently_counterexample:
  "trim (newName blank_form) = []
   \<and> handleAddParticipant (reading 5000 5) blank_form = Inr (None, blank_form)
   \<and> \<not> isl (handleAddParticipant (reading 5000 5) blank_form)"
  by (simp add: blank_form_def typed_def trim_def is_white_space_def handleAddParticipant_def)

text \<open>
  C8 fails on the code. The id is \<open>Date.now()\<close>: a second client that has seen
  Alice (id 5000) and adds Bob while its own clock reads 5000 ms stores two
  participants with the id 5000.
\<close>

theorem add_reuses_id:
  "map id_p (participants (observe meeting store_added fresh_view)) = [5000]
   \<and> map id_p (participants (observe meeting
        (settle (reading 5000 9) (handleAddParticipant (reading 5000 9) bob_form) store_added)
        fresh_view)) = [5000, 5000]"
  unfolding bob_form_def view_added
  by (simp add: typed_def fresh_view_def alice_def reading_def
        handleAddParticipant_def setDoc_def awaited_def store_defs store_added_eq
        trim_def is_white_space_def JOB_ROLES_def Date_now_def)

text \<open>
  What does hold: removing keeps distinct ids distinct, and adding does when the
  client's clock reading is not yet an id of its list.
\<close>

lemma remove_keeps_distinct:
  "distinct (map id_p ps) \<Longrightarrow> distinct (map id_p (filter (\<lambda>p. id_p p \<noteq> i) ps))"
  by (rule distinct_map_filter)

lemma add_keeps_distinct:
  assumes "distinct (map id_p (participants st))" "Date_now c \<notin> id_p ` set (participants st)"
    "handleAddParticipant c st = Inr (Some call, st')"
  shows "\<exists>ps. w_participants (payload call) = Some ps \<and> distinct (map id_p ps)"
  using assms
  by (auto simp: handleAddParticipant_def setDoc_def awaited_def
        split: if_splits option.splits)

lemma filter_absent: "i \<notin> id_p ` set ps \<Longrightarrow> filter (\<lambda>p. id_p p \<noteq> i) ps = ps"
  by (induction ps) auto

text \<open>
  C9. For every participant sequence and every id that does not occur in it, Remove
  returns without an error and writes the sequence as it is: the snapshot afterwards
  shows the same sequence, and a store that already held it is left unchanged.
\<close>

theorem remove_absent_id:
  assumes "i \<notin> id_p ` set (participants st)" "meetingDocRef st = Some r"
  shows "handleRemoveParticipant st i =
      Inr (Some \<lparr>target = r,
                 payload = \<lparr>w_participants = Some (participants st), w_isRunning = None,
                   w_accumulatedSeconds = None, w_startTime = None\<rparr>,
                 merge_opt = True\<rparr>, st)
    \<and> participants (observe r (settle c (handleRemoveParticipant st i) s) st') = participants st
    \<and> (s r = Some d \<and> doc_participants d = Some (participants st)
        \<longrightarrow> settle c (handleRemoveParticipant st i) s = s)"
proof -
  have call: "handleRemoveParticipant st i =
      Inr (Some \<lparr>target = r,
                 payload = \<lparr>w_participants = Some (participants st), w_isRunning = None,
                   w_accumulatedSeconds = None, w_startTime = None\<rparr>,
                 merge_opt = True\<rparr>, st)"
    using assms by (simp add: handleRemoveParticipant_def setDoc_def awaited_def filter_absent)
  have seen: "participants (observe r (settle c (handleRemoveParticipant st i) s) st') = participants st"
    unfolding call by (simp add: store_defs)
  have same: "settle c (handleRemoveParticipant st i) s = s"
    if "s r = Some d \<and> doc_participants d = Some (participants st)"
  proof -
    from that have "write_fields (server_time c) \<lparr>w_participants = Some (participants st), w_isRunning = None,
                   w_accumulatedSeconds = None, w_startTime = None\<rparr> d = d"
      by (simp add: write_fields_def)
    with that show ?thesis
      unfolding call by (simp add: settle_def commit_def fun_upd_idem)
  qed
  from call seen same show ?thesis by blast
qed

theorem remove_absent_id_witness:
  "77 \<notin> id_p ` set (participants stop_view) \<and> meetingDocRef stop_view = Some meeting
   \<and> participants (observe meeting (settle (reading 8000 8) (handleRemoveParticipant stop_view 77) store_started) fresh_view) = [alice]
   \<and> settle (reading 8000 8) (handleRemoveParticipant (observe meeting store_started fresh_view) 77) store_started = store_started"
proof -
  have h: "77 \<notin> id_p ` set (participants stop_view)" "meetingDocRef stop_view = Some meeting"
    by (simp_all add: stop_view_def fresh_view_def alice_def)
  have ps: "participants stop_view = [alice]"
    by (simp add: stop_view_def fresh_view_def)
  from remove_absent_id [OF h, of "reading 8000 8" store_started fresh_view]
  have "participants (observe meeting (settle (reading 8000 8) (handleRemoveParticipant stop_view 77) store_started) fresh_view) = participants stop_view"
    by blast
  then have seen: "participants (observe meeting (settle (reading 8000 8) (handleRemoveParticipant stop_view 77) store_started) fresh_view) = [alice]"
    using ps by (rule trans)
  let ?synced = "observe meeting store_started fresh_view"
  have g: "77 \<notin> id_p ` set (participants ?synced)" "meetingDocRef ?synced = Some meeting"
    by (simp_all add: store_started_eq store_defs fresh_view_def alice_def)
  have d: "store_started meeting = Some (canonical_document\<lparr>doc_participants := Some [alice], doc_isRunning := Some True, doc_startTime := Some (Some \<lparr>seconds = 6, nanoseconds = 0\<rparr>)\<rparr>)
     \<and> doc_participants (canonical_document\<lparr>doc_participants := Some [alice], doc_isRunning := Some True, doc_startTime := Some (Some \<lparr>seconds = 6, nanoseconds = 0\<rparr>)\<rparr>) = Some (participants ?synced)"
    by (simp add: store_started_eq store_defs fresh_view_def)
  from remove_absent_id [OF g, of "reading 8000 8" store_started fresh_view] d
  have "settle (reading 8000 8) (handleRemoveParticipant ?synced 77) store_started = store_started"
    by blast
  with h seen show ?thesis by blast
qed

end
